theory Spec2Isabelle
  imports Main
begin

section \<open>Python values, strings and the parsed page\<close>

text \<open>
  The scraper (\<^verbatim>\<open>scraper.py\<close>) builds its records as Python dictionaries from field
  names to strings, lists of strings or page nodes. A dictionary is a map from keys to
  values; the values that occur are \<^verbatim>\<open>None\<close>, a string, a \<^verbatim>\<open>bs4\<close> tag object and a list.
\<close>

datatype pyval = PyNone | PyStr string | PyTag | PyList "pyval list"

type_synonym dict = "string \<rightharpoonup> pyval"

text \<open>The exceptions that the modelled code can let escape.\<close>

datatype error =
    SystemExit
  | RequestException
  | IOError
  | AttributeError
  | IndexError
  | KeyError
  | TypeError
  | UnboundLocalError
  | ReError

text \<open>\<^verbatim>\<open>s.startswith(p)\<close>, \<^verbatim>\<open>s.endswith(p)\<close>, \<^verbatim>\<open>sub in s\<close>, \<^verbatim>\<open>sep.join(xs)\<close> and \<^verbatim>\<open>s.split(c)\<close>.\<close>

fun startswith :: "string \<Rightarrow> string \<Rightarrow> bool" where
  "startswith s [] = True"
| "startswith [] (p # ps) = False"
| "startswith (c # cs) (p # ps) = (c = p \<and> startswith cs ps)"

definition endswith :: "string \<Rightarrow> string \<Rightarrow> bool" where
  "endswith s p = startswith (rev s) (rev p)"

fun str_contains :: "string \<Rightarrow> string \<Rightarrow> bool" where
  "str_contains sub [] = (sub = [])"
| "str_contains sub (c # cs) = (startswith (c # cs) sub \<or> str_contains sub cs)"

fun str_join :: "string \<Rightarrow> string list \<Rightarrow> string" where
  "str_join sep [] = []"
| "str_join sep [x] = x"
| "str_join sep (x # y # ys) = x @ sep @ str_join sep (y # ys)"

fun py_split :: "char \<Rightarrow> string \<Rightarrow> string list" where
  "py_split d [] = [[]]"
| "py_split d (c # cs) =
     (if c = d then [] # py_split d cs
      else (case py_split d cs of
              [] \<Rightarrow> [[c]]
            | w # ws \<Rightarrow> (c # w) # ws))"

text \<open>
  A child of an element is a \<^verbatim>\<open>NavigableString\<close> (a string) or a nested tag. An element
  that the code selects is read through \<^verbatim>\<open>item.attrs.get('href')\<close>, \<^verbatim>\<open>item.get_text()\<close>,
  \<^verbatim>\<open>item.contents\<close> and \<^verbatim>\<open>item.find('img')\<close> followed by \<^verbatim>\<open>.get('src')\<close>:
  \<open>find_img\<close> is \<open>None\<close> when the element has no image child and \<open>Some None\<close> when the
  image has no \<^verbatim>\<open>src\<close> attribute.
\<close>

datatype node = NavigableString string | Tag

record element =
  href :: "string option"
  get_text :: string
  contents :: "node list"
  find_img :: "string option option"

text \<open>
  The parsed page answers the three queries of the code: \<^verbatim>\<open>soup.select(css)\<close>,
  \<^verbatim>\<open>soup.find('figure', class_='js-lightgallery')\<close> and
  \<^verbatim>\<open>soup.find_all('a', text=re.compile(pattern))\<close>.
\<close>

record soup =
  select :: "string \<Rightarrow> element list"
  find_figure :: "element option"
  find_all_a :: "string \<Rightarrow> element list"

section \<open>The environment: network, browser and libraries\<close>

datatype http_response = Response nat string | ConnectionError

text \<open>
  Everything outside the repository is a parameter: \<open>requests_get\<close> is \<^verbatim>\<open>requests.get\<close>
  (a response with status code and body, or a connection failure); \<open>navigate sid url\<close> is
  \<^verbatim>\<open>driver.get(url)\<close> on browser session \<open>sid\<close>, \<open>None\<close> when it raises
  \<^verbatim>\<open>WebDriverException\<close> and otherwise the page source afterwards; \<open>new_session_page\<close> is
  the page source of a browser session that has not navigated yet; \<open>BeautifulSoup\<close> is the
  parser; \<open>str_lower\<close> and \<open>str_strip\<close> are \<^verbatim>\<open>str.lower\<close> and \<^verbatim>\<open>str.strip\<close>;
  \<open>re_compile\<close> tells whether \<^verbatim>\<open>re.compile\<close> accepts the pattern.
\<close>

record env =
  requests_get :: "string \<Rightarrow> http_response"
  navigate :: "nat \<Rightarrow> string \<Rightarrow> string option"
  new_session_page :: string
  BeautifulSoup :: "string \<Rightarrow> soup"
  str_lower :: "string \<Rightarrow> string"
  str_strip :: "string \<Rightarrow> string"
  re_compile :: "string \<Rightarrow> bool"

section \<open>The scraper's state\<close>

datatype event = HttpGet string | DriverGet string | DriverLaunch | ImageGet string

record driver =
  session_id :: nat
  page_source :: string

text \<open>
  \<open>driver\<close> is \<^verbatim>\<open>self.driver\<close>; \<open>launched\<close> counts the browser sessions started so far
  and numbers the next one; \<open>trace\<close> lists the network operations in the order they
  were issued; \<open>category_coll\<close> and \<open>articles_coll\<close> list the documents handed to
  \<^verbatim>\<open>insert_many\<close> and \<^verbatim>\<open>insert_one\<close> of the two collections, as they were at the call;
  \<open>image_storage\<close> is the local image directory, from file name to bytes.
\<close>

record state =
  driver :: driver
  launched :: nat
  trace :: "event list"
  category_coll :: "dict list list"
  articles_coll :: "dict list"
  image_storage :: "string \<rightharpoonup> string"

type_synonym 'a comp = "state \<Rightarrow> (error + 'a) \<times> state"

text \<open>Sequencing: an exception of the first computation ends the second, the state is kept.\<close>

definition and_then :: "'a comp \<Rightarrow> ('a \<Rightarrow> 'b comp) \<Rightarrow> 'b comp" where
  "and_then m f s =
     (case m s of
        (Inl e, s') \<Rightarrow> (Inl e, s')
      | (Inr a, s') \<Rightarrow> f a s')"

definition tsn_name :: string where
  "tsn_name = ''tsn.ua''"

definition tsn_url :: string where
  "tsn_url = ''https://tsn.ua/''"

definition ukrnet_name :: string where
  "ukrnet_name = ''ukr.net''"

definition ukrnet_url :: string where
  "ukrnet_url = ''https://www.ukr.net/''"

definition init_webdriver :: "env \<Rightarrow> state \<Rightarrow> state" where
  "init_webdriver E s =
     s\<lparr>driver := \<lparr>session_id = launched s, page_source = new_session_page E\<rparr>,
       launched := Suc (launched s),
       trace := trace s @ [DriverLaunch]\<rparr>"

text \<open>
  \<^verbatim>\<open>insert_one_to_collection\<close> and \<^verbatim>\<open>insert_many_to_collection\<close> catch the store's
  errors and log them, so they never raise; the model records the document handed over.
\<close>

definition insert_one_to_collection :: "dict \<Rightarrow> state \<Rightarrow> state" where
  "insert_one_to_collection data s = s\<lparr>articles_coll := articles_coll s @ [data]\<rparr>"

definition insert_many_to_collection :: "dict list \<Rightarrow> state \<Rightarrow> state" where
  "insert_many_to_collection data s = s\<lparr>category_coll := category_coll s @ [data]\<rparr>"

section \<open>Downloading images and fetching pages\<close>

text \<open>
  \<^verbatim>\<open>download_image\<close>: the file name is the last path segment of the URL up to its first
  question mark; \<^verbatim>\<open>requests.get\<close> may raise; then \<^verbatim>\<open>open\<close> raises when the path is a
  directory, which it is for an empty file name and for the names \<^verbatim>\<open>.\<close> and \<^verbatim>\<open>..\<close>;
  otherwise the body is written, whatever the status code.
\<close>

definition local_filename :: "string \<Rightarrow> error + string" where
  "local_filename image_url =
     (case rev (py_split (CHR ''/'') image_url) of
        [] \<Rightarrow> Inl IndexError
      | seg # _ \<Rightarrow>
          (case py_split (CHR ''?'') seg of
             [] \<Rightarrow> Inl IndexError
           | f # _ \<Rightarrow> Inr f))"

definition download_image :: "env \<Rightarrow> string \<Rightarrow> unit comp" where
  "download_image E image_url s =
     (case local_filename image_url of
        Inl e \<Rightarrow> (Inl e, s)
      | Inr f \<Rightarrow>
          (let s1 = s\<lparr>trace := trace s @ [ImageGet image_url]\<rparr> in
           case requests_get E image_url of
             ConnectionError \<Rightarrow> (Inl RequestException, s1)
           | Response status body \<Rightarrow>
               if f = [] \<or> f = ''.'' \<or> f = ''..'' then (Inl IOError, s1)
               else (Inr (), s1\<lparr>image_storage := (image_storage s1)(f \<mapsto> body)\<rparr>)))"

text \<open>
  \<^verbatim>\<open>get_request_content\<close>: \<^verbatim>\<open>raise_for_status\<close> raises \<^verbatim>\<open>HTTPError\<close> for a status
  from 400 to 599, which the handler turns into \<^verbatim>\<open>sys.exit(1)\<close>; a connection failure
  is not caught.
\<close>

definition get_request_content :: "env \<Rightarrow> string \<Rightarrow> string comp" where
  "get_request_content E url s =
     (let s1 = s\<lparr>trace := trace s @ [HttpGet url]\<rparr> in
      case requests_get E url of
        ConnectionError \<Rightarrow> (Inl RequestException, s1)
      | Response status text \<Rightarrow>
          if 400 \<le> status \<and> status < 600 then (Inl SystemExit, s1)
          else (Inr text, s1))"

text \<open>
  \<^verbatim>\<open>get_webdriver_content\<close>: one \<^verbatim>\<open>driver.get(url)\<close>; on \<^verbatim>\<open>WebDriverException\<close> the
  driver is replaced by a new session; then the page source of the current driver is
  returned.
\<close>

definition get_webdriver_content :: "env \<Rightarrow> string \<Rightarrow> string comp" where
  "get_webdriver_content E url s =
     (let s1 = s\<lparr>trace := trace s @ [DriverGet url]\<rparr>;
          s2 = (case navigate E (session_id (driver s1)) url of
                  Some page \<Rightarrow> s1\<lparr>driver := (driver s1)\<lparr>page_source := page\<rparr>\<rparr>
                | None \<Rightarrow> init_webdriver E s1)
      in (Inr (page_source (driver s2)), s2))"

definition get_page_content :: "env \<Rightarrow> string \<Rightarrow> string \<Rightarrow> string comp" where
  "get_page_content E resource_name url =
     (if resource_name = ''tsn.ua'' then get_request_content E url
      else get_webdriver_content E url)"

definition parse_page_content :: "env \<Rightarrow> string \<Rightarrow> string \<Rightarrow> soup comp" where
  "parse_page_content E resource_name url =
     and_then (get_page_content E resource_name url)
       (\<lambda>page_obj s. (Inr (BeautifulSoup E page_obj), s))"

section \<open>Category discovery\<close>

text \<open>
  The loop of \<^verbatim>\<open>gather_categories\<close>. \<^verbatim>\<open>str(item.attrs.get('href'))\<close> is the text
  \<^verbatim>\<open>None\<close> for an element without the attribute.
\<close>

fun gather_loop :: "env \<Rightarrow> element list \<Rightarrow> dict list \<Rightarrow> dict list" where
  "gather_loop E [] categories = categories"
| "gather_loop E (item # items) categories =
     (let link = (case href item of None \<Rightarrow> ''None'' | Some h \<Rightarrow> h) in
      if startswith link ''javascript'' then gather_loop E items categories
      else
        (let link = (if \<not> startswith link ''https:'' then ''https:'' @ link else link);
             category = [''link'' \<mapsto> PyStr link,
                         ''name'' \<mapsto> PyStr (str_strip E (get_text item))]
         in gather_loop E items (categories @ [category])))"

definition gather_categories :: "env \<Rightarrow> string \<Rightarrow> string \<Rightarrow> string \<Rightarrow> dict list comp" where
  "gather_categories E url resource_name selector =
     and_then (parse_page_content E resource_name url)
       (\<lambda>soup s.
          (let categories = gather_loop E (select soup selector) []
           in (Inr categories, insert_many_to_collection categories s)))"

definition tsn_categories :: "env \<Rightarrow> dict list comp" where
  "tsn_categories E = gather_categories E tsn_url tsn_name ''ul.c-app-nav-more-list li a''"

definition ukrnet_categories :: "env \<Rightarrow> dict list comp" where
  "ukrnet_categories E = gather_categories E ukrnet_url ukrnet_name ''h2.feed__section--title a''"

section \<open>Articles of one category\<close>

text \<open>
  The loop of \<^verbatim>\<open>get_ukrnet_articles\<close>, with its counter and its result list.
  \<^verbatim>\<open>link.startswith\<close> raises when the element has no \<^verbatim>\<open>href\<close>, and
  \<^verbatim>\<open>item.contents[0]\<close> raises when the element has no child.
\<close>

definition node_val :: "node \<Rightarrow> pyval" where
  "node_val n = (case n of NavigableString t \<Rightarrow> PyStr t | Tag \<Rightarrow> PyTag)"

fun ukrnet_loop :: "int \<Rightarrow> string \<Rightarrow> element list \<Rightarrow> int \<Rightarrow> dict list \<Rightarrow> dict list comp" where
  "ukrnet_loop limit category_name [] count result s = (Inr result, s)"
| "ukrnet_loop limit category_name (item # items) count result s =
     (if count \<le> limit then
        (case href item of
           None \<Rightarrow> (Inl AttributeError, s)
         | Some link0 \<Rightarrow>
             (let link = (if startswith link0 ''//'' then drop 2 link0 else link0) in
              case contents item of
                [] \<Rightarrow> (Inl IndexError, s)
              | c # _ \<Rightarrow>
                  (let article = [''link'' \<mapsto> PyStr link,
                                  ''category'' \<mapsto> PyStr category_name,
                                  ''content'' \<mapsto> node_val c]
                   in ukrnet_loop limit category_name items (count + 1) (result @ [article])
                        (insert_one_to_collection article s))))
      else (Inr result, s))"

definition get_ukrnet_articles :: "env \<Rightarrow> int \<Rightarrow> string \<Rightarrow> string \<Rightarrow> dict list comp" where
  "get_ukrnet_articles E limit category_name url =
     and_then (parse_page_content E ukrnet_name url)
       (\<lambda>soup. ukrnet_loop limit category_name (select soup ''div.im-tl a'') 0 [])"

text \<open>
  \<^verbatim>\<open>get_tsn_articles\<close>, first loop. The thumbnail is recorded and downloaded when its
  address is a non-empty string that starts with neither \<^verbatim>\<open>data:image\<close> nor
  \<^verbatim>\<open>javascript\<close>; the call of \<^verbatim>\<open>download_image\<close> is not guarded.
\<close>

definition tsn_thumbnail :: "env \<Rightarrow> string option \<Rightarrow> dict \<Rightarrow> dict comp" where
  "tsn_thumbnail E img_src article s =
     (case img_src of
        None \<Rightarrow> (Inr article, s)
      | Some src \<Rightarrow>
          if src \<noteq> [] \<and> \<not> (startswith src ''data:image'' \<or> startswith src ''javascript'')
          then and_then (download_image E src)
                 (\<lambda>_ s'. (Inr (article(''img_src'' \<mapsto> PyStr src)), s')) s
          else (Inr article, s))"

fun tsn_listing :: "env \<Rightarrow> int \<Rightarrow> string \<Rightarrow> element list \<Rightarrow> int \<Rightarrow> dict list \<Rightarrow> dict list comp" where
  "tsn_listing E limit category_name [] count data s = (Inr data, s)"
| "tsn_listing E limit category_name (item # items) count data s =
     (if count \<le> limit then
        (case find_img item of
           None \<Rightarrow> (Inl AttributeError, s)
         | Some img_src \<Rightarrow>
             (case href item of
                None \<Rightarrow> (Inl AttributeError, s)
              | Some link \<Rightarrow>
                  if endswith link ''.html'' then
                    (case tsn_thumbnail E img_src [''link'' \<mapsto> PyStr link] s of
                       (Inl e, s') \<Rightarrow> (Inl e, s')
                     | (Inr article, s') \<Rightarrow>
                         tsn_listing E limit category_name items (count + 1)
                           (data @ [article(''category'' \<mapsto> PyStr category_name)]) s')
                  else tsn_listing E limit category_name items (count + 1) data s))
      else (Inr data, s))"

text \<open>
  Second loop. \<open>header_text\<close> is the local variable of that name: \<open>None\<close> while it is
  unbound, and it keeps its value from one article to the next. \<^verbatim>\<open>"".join\<close> accepts
  strings only. \<^verbatim>\<open>strip('')\<close> removes nothing. A \<^verbatim>\<open>bs4\<close> tag has no method
  \<^verbatim>\<open>startswith\<close>: the attribute is looked up as a child tag of that name, is
  \<^verbatim>\<open>None\<close>, and calling it raises \<^verbatim>\<open>TypeError\<close>.
\<close>

fun join_nodes :: "node list \<Rightarrow> error + string" where
  "join_nodes [] = Inr []"
| "join_nodes (NavigableString t # ns) =
     (case join_nodes ns of Inl e \<Rightarrow> Inl e | Inr r \<Rightarrow> Inr (t @ r))"
| "join_nodes (Tag # ns) = Inl TypeError"

definition read_header :: "element list \<Rightarrow> string option \<Rightarrow> error + string option" where
  "read_header news_header header_text =
     (case news_header of
        [] \<Rightarrow> Inr header_text
      | h # _ \<Rightarrow> (case join_nodes (contents h) of Inl e \<Rightarrow> Inl e | Inr t \<Rightarrow> Inr (Some t)))"

fun tsn_pages :: "env \<Rightarrow> dict list \<Rightarrow> string option \<Rightarrow> dict list \<Rightarrow> dict list comp" where
  "tsn_pages E [] header_text result s = (Inr result, s)"
| "tsn_pages E (article # data) header_text result s =
     (case article ''link'' of
        None \<Rightarrow> (Inl KeyError, s)
      | Some (PyStr url) \<Rightarrow>
          (case parse_page_content E tsn_name url s of
             (Inl e, s1) \<Rightarrow> (Inl e, s1)
           | (Inr new_soup, s1) \<Rightarrow>
               (let news_content = select new_soup ''div.e-content p'';
                    article_text = str_join '' '' (map get_text news_content);
                    news_header = select new_soup ''div.c-post-meta h1''
                in case read_header news_header header_text of
                     Inl e \<Rightarrow> (Inl e, s1)
                   | Inr header_text' \<Rightarrow>
                       (case find_figure new_soup of
                          Some article_image \<Rightarrow> (Inl TypeError, s1)
                        | None \<Rightarrow>
                            (case article ''category'' of
                               None \<Rightarrow> (Inl KeyError, s1)
                             | Some category \<Rightarrow>
                                 (case header_text' of
                                    None \<Rightarrow> (Inl UnboundLocalError, s1)
                                  | Some title \<Rightarrow>
                                      (let news_chunk =
                                             [''category'' \<mapsto> category,
                                              ''link'' \<mapsto> PyStr url,
                                              ''title'' \<mapsto> PyStr title,
                                              ''content'' \<mapsto> PyStr article_text,
                                              ''images'' \<mapsto>
                                                 PyList (case article ''img_src'' of
                                                           None \<Rightarrow> []
                                                         | Some i \<Rightarrow> [i])]
                                       in tsn_pages E data (Some title) (result @ [news_chunk])
                                            (insert_one_to_collection news_chunk s1)))))))
      | Some _ \<Rightarrow> (Inl TypeError, s))"

definition get_tsn_articles :: "env \<Rightarrow> int \<Rightarrow> string \<Rightarrow> string \<Rightarrow> dict list comp" where
  "get_tsn_articles E limit category_name url =
     and_then (parse_page_content E tsn_name url)
       (\<lambda>soup. and_then
          (tsn_listing E limit category_name
             (select soup ''div.c-entry-embed a.c-post-img-wrap'') 0 [])
          (\<lambda>data. tsn_pages E data None []))"

section \<open>Search by category\<close>

text \<open>
  \<^verbatim>\<open>search_by_category\<close> returns \<^verbatim>\<open>False\<close> when no category has the name, and the
  list of articles otherwise. The argument is the text that the caller encoded as UTF-8,
  which \<^verbatim>\<open>decode('utf-8')\<close> gives back.
\<close>

datatype search_result = PyFalse | Articles "dict list"

fun find_category :: "env \<Rightarrow> string \<Rightarrow> dict list \<Rightarrow> error + dict option" where
  "find_category E category_name [] = Inr None"
| "find_category E category_name (item # items) =
     (case item ''name'' of
        None \<Rightarrow> Inl KeyError
      | Some (PyStr n) \<Rightarrow>
          if str_lower E n = category_name then Inr (Some item)
          else find_category E category_name items
      | Some _ \<Rightarrow> Inl AttributeError)"

definition resolve_articles :: "env \<Rightarrow> int \<Rightarrow> string \<Rightarrow> dict \<Rightarrow> search_result comp" where
  "resolve_articles E limit category_name category_obj s =
     (case category_obj ''link'' of
        None \<Rightarrow> (Inl KeyError, s)
      | Some (PyStr link) \<Rightarrow>
          and_then
            (if str_contains ''ukr.net'' link
             then get_ukrnet_articles E limit category_name link
             else get_tsn_articles E limit category_name link)
            (\<lambda>articles s'. (Inr (Articles articles), s')) s
      | Some _ \<Rightarrow> (Inl TypeError, s))"

definition search_by_category :: "env \<Rightarrow> int \<Rightarrow> string \<Rightarrow> search_result comp" where
  "search_by_category E limit category_name0 =
     (let category_name = str_lower E category_name0 in
      and_then (tsn_categories E)
        (\<lambda>tsn. and_then (ukrnet_categories E)
           (\<lambda>ukrnet s.
              (let category_list = tsn @ ukrnet in
               case find_category E category_name category_list of
                 Inl e \<Rightarrow> (Inl e, s)
               | Inr None \<Rightarrow> (Inr PyFalse, s)
               | Inr (Some category_obj) \<Rightarrow>
                   resolve_articles E limit category_name category_obj s))))"

section \<open>Search by text\<close>

text \<open>
  \<^verbatim>\<open>website_search_by_text\<close> creates one dictionary per category link and appends that
  same object once per matching anchor, so the objects live in a store and the result is
  a list of references.
\<close>

record store =
  objects :: "nat \<rightharpoonup> dict"
  next_ref :: nat

definition new_dict :: "store \<Rightarrow> nat \<times> store" where
  "new_dict st =
     (next_ref st, st\<lparr>objects := (objects st)(next_ref st \<mapsto> Map.empty),
                      next_ref := Suc (next_ref st)\<rparr>)"

definition deref :: "store \<Rightarrow> nat \<Rightarrow> dict" where
  "deref st a = (case objects st a of None \<Rightarrow> Map.empty | Some d \<Rightarrow> d)"

definition setitem :: "store \<Rightarrow> nat \<Rightarrow> string \<Rightarrow> pyval \<Rightarrow> store" where
  "setitem st a k v = st\<lparr>objects := (objects st)(a \<mapsto> (deref st a)(k \<mapsto> v))\<rparr>"

fun search_items ::
  "env \<Rightarrow> dict \<Rightarrow> nat \<Rightarrow> element list \<Rightarrow> nat list \<times> store \<Rightarrow> (nat list \<times> store) comp" where
  "search_items E link article [] (result, st) s = (Inr (result, st), s)"
| "search_items E link article (item # items) (result, st) s =
     (let st1 = setitem st article ''link''
                  (case href item of None \<Rightarrow> PyNone | Some h \<Rightarrow> PyStr h)
      in case link ''name'' of
           None \<Rightarrow> (Inl KeyError, s)
         | Some name \<Rightarrow>
             (let st2 = setitem st1 article ''category'' name in
              case contents item of
                [] \<Rightarrow> (Inl IndexError, s)
              | Tag # _ \<Rightarrow> (Inl TypeError, s)
              | NavigableString c # _ \<Rightarrow>
                  (let st3 = setitem st2 article ''content'' (PyStr (str_strip E c))
                   in search_items E link article items (result @ [article], st3)
                        (insert_one_to_collection (deref st3 article) s))))"

fun search_links ::
  "env \<Rightarrow> string \<Rightarrow> dict list \<Rightarrow> nat list \<times> store \<Rightarrow> (nat list \<times> store) comp" where
  "search_links E text_searched [] acc s = (Inr acc, s)"
| "search_links E text_searched (link # links) (result, st) s =
     (case new_dict st of
        (article, st0) \<Rightarrow>
          (case link ''link'' of
             None \<Rightarrow> (Inl KeyError, s)
           | Some (PyStr url) \<Rightarrow>
               (case parse_page_content E
                       (if str_contains tsn_name url then tsn_name else ukrnet_name) url s of
                  (Inl e, s1) \<Rightarrow> (Inl e, s1)
                | (Inr soup, s1) \<Rightarrow>
                    if \<not> re_compile E text_searched then (Inl ReError, s1)
                    else
                      (case search_items E link article (find_all_a soup text_searched)
                              (result, st0) s1 of
                         (Inl e, s2) \<Rightarrow> (Inl e, s2)
                       | (Inr acc, s2) \<Rightarrow> search_links E text_searched links acc s2))
           | Some _ \<Rightarrow> (Inl TypeError, s)))"

definition website_search_by_text :: "env \<Rightarrow> string \<Rightarrow> dict list \<Rightarrow> (nat list \<times> store) comp" where
  "website_search_by_text E text_searched category_links =
     search_links E text_searched category_links ([], \<lparr>objects = Map.empty, next_ref = 0\<rparr>)"

definition search_by_text :: "env \<Rightarrow> string \<Rightarrow> (nat list \<times> store) comp" where
  "search_by_text E text =
     and_then (ukrnet_categories E)
       (\<lambda>ukrnet. and_then (tsn_categories E)
          (\<lambda>tsn. website_search_by_text E text (ukrnet @ tsn)))"

section \<open>Predicates used in the statements\<close>

text \<open>
  What a computation returned or raised; the shape of a category record; whether a
  category's lower-case name is the one searched for; whether a link names its scheme;
  and how the article of an anchor stores the anchor's link.
\<close>

definition returned :: "(error + 'a) \<times> state \<Rightarrow> 'a option" where
  "returned r = (case fst r of Inl e \<Rightarrow> None | Inr a \<Rightarrow> Some a)"

definition field :: "string \<Rightarrow> dict list \<Rightarrow> pyval option list" where
  "field k ds = map (\<lambda>d. d k) ds"

definition category_shaped :: "dict \<Rightarrow> bool" where
  "category_shaped c =
     (case c ''link'' of
        Some (PyStr l) \<Rightarrow>
          startswith l ''https:'' \<and> (case c ''name'' of Some (PyStr n) \<Rightarrow> True | _ \<Rightarrow> False)
      | _ \<Rightarrow> False)"

definition name_matches :: "env \<Rightarrow> string \<Rightarrow> dict \<Rightarrow> bool" where
  "name_matches E category_name c =
     (case c ''name'' of Some (PyStr n) \<Rightarrow> str_lower E n = category_name | _ \<Rightarrow> False)"

text \<open>
  The categories that discovery is to return for the anchors of an index page: one
  record for each anchor whose link text does not start with \<^verbatim>\<open>javascript\<close>, in page
  order, with \<^verbatim>\<open>https:\<close> put in front of a link that does not start with it.
\<close>

definition href_text :: "element \<Rightarrow> string" where
  "href_text item = (case href item of None \<Rightarrow> ''None'' | Some h \<Rightarrow> h)"

definition category_record :: "env \<Rightarrow> element \<Rightarrow> dict" where
  "category_record E item =
     [''link'' \<mapsto> PyStr (if startswith (href_text item) ''https:'' then href_text item
                           else ''https:'' @ href_text item),
      ''name'' \<mapsto> PyStr (str_strip E (get_text item))]"

definition is_script_link :: "element \<Rightarrow> bool" where
  "is_script_link item = startswith (href_text item) ''javascript''"

definition kept_categories :: "env \<Rightarrow> element list \<Rightarrow> dict list" where
  "kept_categories E items = map (category_record E) (filter (\<lambda>item. \<not> is_script_link item) items)"

definition scheme_qualified :: "string \<Rightarrow> bool" where
  "scheme_qualified l = (startswith l ''https://'' \<or> startswith l ''http://'')"

definition stored_link :: "element \<Rightarrow> dict \<Rightarrow> bool" where
  "stored_link item a =
     (case href item of
        None \<Rightarrow> False
      | Some l \<Rightarrow> a ''link'' = Some (PyStr (if startswith l ''//'' then drop 2 l else l)))"

definition link_value :: "element \<Rightarrow> pyval" where
  "link_value item = (case href item of None \<Rightarrow> PyNone | Some h \<Rightarrow> PyStr h)"

definition first_string :: "element \<Rightarrow> string option" where
  "first_string item = (case contents item of NavigableString c # _ \<Rightarrow> Some c | _ \<Rightarrow> None)"

definition shared_record :: "env \<Rightarrow> dict \<Rightarrow> element list \<Rightarrow> store \<Rightarrow> nat \<Rightarrow> bool" where
  "shared_record E link items st a =
     (deref st a ''link'' = Some (link_value (last items))
      \<and> deref st a ''category'' = link ''name''
      \<and> deref st a ''content'' =
          map_option (\<lambda>c. PyStr (str_strip E c)) (first_string (last items)))"

definition empty_store :: store where
  "empty_store = \<lparr>objects = Map.empty, next_ref = 0\<rparr>"

section \<open>A small web for the examples\<close>

text \<open>
  Two index pages, a listing page of each site and one article page, with the library
  functions on ASCII text. The index page of the first site has a script link; the
  listing page of the second site has three anchors, two of which mention a budget, and
  so do two anchors of the first site's listing page; the image of the first site's
  listing cannot be fetched, while the article it belongs to can and has a title; the
  article of the other listing has no title. In \<open>image_env\<close> the image can be fetched.
\<close>

definition ascii_lower :: "string \<Rightarrow> string" where
  "ascii_lower =
     map (\<lambda>c. case map_of (zip ''ABCDEFGHIJKLMNOPQRSTUVWXYZ'' ''abcdefghijklmnopqrstuvwxyz'') c of
                 None \<Rightarrow> c
               | Some d \<Rightarrow> d)"

definition ascii_strip :: "string \<Rightarrow> string" where
  "ascii_strip t = rev (dropWhile (\<lambda>c. c = CHR '' '') (rev (dropWhile (\<lambda>c. c = CHR '' '') t)))"

definition anchor :: "string \<Rightarrow> string \<Rightarrow> element" where
  "anchor h t = \<lparr>href = Some h, get_text = t, contents = [NavigableString t], find_img = None\<rparr>"

definition no_soup :: soup where
  "no_soup = \<lparr>select = (\<lambda>_. []), find_figure = None, find_all_a = (\<lambda>_. [])\<rparr>"

definition demo_parse :: "string \<Rightarrow> soup" where
  "demo_parse page =
     (if page = ''tsn-index'' then
        no_soup\<lparr>select := (\<lambda>css. if css = ''ul.c-app-nav-more-list li a''
                   then [anchor ''https://tsn.ua/groshi'' '' Groshi '',
                         anchor ''javascript:void(0)'' ''More'']
                   else [])\<rparr>
      else if page = ''ukr-index'' then
        no_soup\<lparr>select := (\<lambda>css. if css = ''h2.feed__section--title a''
                   then [anchor ''//www.ukr.net/news/sport.html'' ''Sport'']
                   else [])\<rparr>
      else if page = ''ukr-listing'' then
        no_soup\<lparr>select := (\<lambda>css. if css = ''div.im-tl a''
                   then [anchor ''//www.ukr.net/news/a.html'' ''Cup final'',
                         anchor ''//www.ukr.net/news/b.html'' ''Sport budget'',
                         anchor ''//www.ukr.net/news/c.html'' ''City budget plan'']
                   else []),
                find_all_a := (\<lambda>p. if p = ''budget''
                   then [anchor ''//www.ukr.net/news/b.html'' ''Sport budget'',
                         anchor ''//www.ukr.net/news/c.html'' ''City budget plan'']
                   else [])\<rparr>
      else if page = ''tsn-listing'' then
        no_soup\<lparr>select := (\<lambda>css. if css = ''div.c-entry-embed a.c-post-img-wrap''
                   then [(anchor ''https://tsn.ua/groshi/a.html'' '''')
                           \<lparr>find_img := Some (Some ''https://img.tsn.ua/a.jpg'')\<rparr>]
                   else []),
                find_all_a := (\<lambda>p. if p = ''budget''
                   then [anchor ''https://tsn.ua/groshi/a.html'' ''State budget passed'',
                         anchor ''https://tsn.ua/groshi/d.html'' ''No budget for roads'']
                   else [])\<rparr>
      else if page = ''tsn-article-titled'' then
        no_soup\<lparr>select := (\<lambda>css. if css = ''div.e-content p''
                   then [anchor '''' ''The budget passed.'']
                   else if css = ''div.c-post-meta h1''
                   then [anchor '''' ''State budget passed'']
                   else [])\<rparr>
      else if page = ''tsn-listing-plain'' then
        no_soup\<lparr>select := (\<lambda>css. if css = ''div.c-entry-embed a.c-post-img-wrap''
                   then [(anchor ''https://tsn.ua/svit/b.html'' '''')\<lparr>find_img := Some None\<rparr>]
                   else [])\<rparr>
      else if page = ''tsn-article-untitled'' then
        no_soup\<lparr>select := (\<lambda>css. if css = ''div.e-content p''
                   then [anchor '''' ''First paragraph.'', anchor '''' ''Second paragraph.'']
                   else [])\<rparr>
      else no_soup)"

definition demo_env :: env where
  "demo_env =
     \<lparr>requests_get = (\<lambda>url.
          if url = ''https://tsn.ua/'' then Response 200 ''tsn-index''
          else if url = ''https://tsn.ua/groshi'' then Response 200 ''tsn-listing''
          else if url = ''https://tsn.ua/groshi/a.html'' then Response 200 ''tsn-article-titled''
          else if url = ''https://tsn.ua/svit'' then Response 200 ''tsn-listing-plain''
          else if url = ''https://tsn.ua/svit/b.html'' then Response 200 ''tsn-article-untitled''
          else ConnectionError),
       navigate = (\<lambda>sid url.
          if url = ''https://www.ukr.net/'' then Some ''ukr-index''
          else if url = ''https://www.ukr.net/news/sport.html'' then Some ''ukr-listing''
          else None),
       new_session_page = ''<html><head></head><body></body></html>'',
       BeautifulSoup = demo_parse,
       str_lower = ascii_lower,
       str_strip = ascii_strip,
       re_compile = (\<lambda>_. True)\<rparr>"

definition start_state :: state where
  "start_state =
     \<lparr>driver = \<lparr>session_id = 0, page_source = ''<html><head></head><body></body></html>''\<rparr>,
       launched = 1, trace = [], category_coll = [], articles_coll = [],
       image_storage = Map.empty\<rparr>"

definition image_env :: env where
  "image_env =
     demo_env\<lparr>requests_get := (\<lambda>url. if url = ''https://img.tsn.ua/a.jpg'' then Response 200 ''JPEG''
                                     else requests_get demo_env url)\<rparr>"

definition crash_env :: env where
  "crash_env =
     demo_env\<lparr>navigate := (\<lambda>sid url. if sid = 0 then None else Some ''<html>news</html>'')\<rparr>"

definition tsn_found :: "dict list" where
  "tsn_found = [[''link'' \<mapsto> PyStr ''https://tsn.ua/groshi'', ''name'' \<mapsto> PyStr ''Groshi'']]"

definition ukrnet_found :: "dict list" where
  "ukrnet_found =
     [[''link'' \<mapsto> PyStr ''https://www.ukr.net/news/sport.html'', ''name'' \<mapsto> PyStr ''Sport'']]"

definition after_tsn :: state where
  "after_tsn = start_state\<lparr>trace := [HttpGet ''https://tsn.ua/''], category_coll := [tsn_found]\<rparr>"

definition after_discovery :: state where
  "after_discovery =
     after_tsn\<lparr>driver := \<lparr>session_id = 0, page_source = ''ukr-index''\<rparr>,
               trace := [HttpGet ''https://tsn.ua/'', DriverGet ''https://www.ukr.net/''],
               category_coll := [tsn_found, ukrnet_found]\<rparr>"

section \<open>Fetching pages\<close>

lemmas fetch_defs = parse_page_content_def get_page_content_def get_request_content_def
  get_webdriver_content_def init_webdriver_def and_then_def tsn_name_def tsn_url_def
  ukrnet_name_def ukrnet_url_def

lemmas demo_defs = demo_env_def demo_parse_def no_soup_def anchor_def start_state_def
  ascii_strip_def

lemma trace_get_request_content:
  "trace (snd (get_request_content E url s)) = trace s @ [HttpGet url]"
  by (simp add: get_request_content_def Let_def split: http_response.split)

lemma trace_get_webdriver_content:
  "trace (snd (get_webdriver_content E url s)) =
     trace s @ DriverGet url # (case navigate E (session_id (driver s)) url of
                                  None \<Rightarrow> [DriverLaunch] | Some p \<Rightarrow> [])"
  by (simp add: get_webdriver_content_def init_webdriver_def Let_def split: option.split)

text \<open>
  C10. The fetch strategy depends on the resource name alone: the result is that of the
  plain HTTP request when the name is \<^verbatim>\<open>tsn.ua\<close> and that of the browser session for
  every other name; the operations issued are an HTTP GET of the address exactly in the
  first case and a navigation of the browser to it exactly in the second.
\<close>

theorem get_page_content_dispatch:
  "get_page_content E resource_name url s =
     (if resource_name = ''tsn.ua'' then get_request_content E url s
      else get_webdriver_content E url s)
   \<and> (HttpGet url \<in> set (drop (length (trace s))
         (trace (snd (get_page_content E resource_name url s))))) = (resource_name = ''tsn.ua'')
   \<and> (DriverGet url \<in> set (drop (length (trace s))
         (trace (snd (get_page_content E resource_name url s))))) = (resource_name \<noteq> ''tsn.ua'')"
  by (simp add: get_page_content_def trace_get_request_content trace_get_webdriver_content
        split: option.split)

theorem get_page_content_dispatch_witness:
  "DriverGet ''https://www.ukr.net/'' \<in> set (drop (length (trace start_state))
      (trace (snd (get_page_content demo_env ''ukr.net'' ''https://www.ukr.net/'' start_state))))
   \<and> HttpGet ''https://tsn.ua/'' \<in> set (drop (length (trace start_state))
      (trace (snd (get_page_content demo_env ''tsn.ua'' ''https://tsn.ua/'' start_state))))"
  using get_page_content_dispatch
      [of demo_env "''ukr.net''" "''https://www.ukr.net/''" start_state, THEN conjunct2]
    get_page_content_dispatch
      [of demo_env "''tsn.ua''" "''https://tsn.ua/''" start_state, THEN conjunct2]
  by simp

text \<open>
  When the navigation raises, the driver is replaced by a new session, nothing is
  navigated again, and the page source of the new session is returned.
\<close>

lemma get_webdriver_content_fault:
  assumes "navigate E (session_id (driver s)) url = None"
  shows "get_webdriver_content E url s =
     (Inr (new_session_page E),
      s\<lparr>driver := \<lparr>session_id = launched s, page_source = new_session_page E\<rparr>,
        launched := Suc (launched s),
        trace := trace s @ [DriverGet url, DriverLaunch]\<rparr>)"
  using assms by (simp add: get_webdriver_content_def init_webdriver_def Let_def)

text \<open>
  C3. The claim asks for one more navigation on the new session. The code does not
  navigate again: with a first session that fails and a second one that would show the
  news page, the fetch issues one navigation and one launch and returns the empty page
  of the new session.
\<close>

theorem restart_does_not_retry:
  "navigate crash_env 0 ''https://www.ukr.net/'' = None
   \<and> navigate crash_env 1 ''https://www.ukr.net/'' = Some ''<html>news</html>''
   \<and> get_webdriver_content crash_env ''https://www.ukr.net/'' start_state =
       (Inr ''<html><head></head><body></body></html>'',
        start_state\<lparr>driver := \<lparr>session_id = 1,
                                  page_source = ''<html><head></head><body></body></html>''\<rparr>,
                    launched := 2,
                    trace := [DriverGet ''https://www.ukr.net/'', DriverLaunch]\<rparr>)"
  by (simp add: crash_env_def demo_env_def start_state_def get_webdriver_content_def
        init_webdriver_def Let_def)

section \<open>Category discovery\<close>

lemma https_not_javascript: "startswith l ''https:'' \<Longrightarrow> \<not> startswith l ''javascript''"
  by (cases l) auto

lemma category_shapedD:
  "category_shaped c \<Longrightarrow>
     \<exists>l n. c ''link'' = Some (PyStr l) \<and> startswith l ''https:'' \<and> c ''name'' = Some (PyStr n)"
  unfolding category_shaped_def
  by (simp split: option.split_asm pyval.split_asm)

lemma gather_loop_shaped:
  "list_all category_shaped categories \<Longrightarrow> list_all category_shaped (gather_loop E items categories)"
proof (induction items arbitrary: categories)
  case Nil
  then show ?case by simp
next
  case (Cons item items)
  define link where "link = (case href item of None \<Rightarrow> ''None'' | Some h \<Rightarrow> h)"
  define link' where "link' = (if \<not> startswith link ''https:'' then ''https:'' @ link else link)"
  define category where
    "category = [''link'' \<mapsto> PyStr link', ''name'' \<mapsto> PyStr (str_strip E (get_text item))]"
  have "startswith link' ''https:''" by (simp add: link'_def)
  then have "category_shaped category" by (simp add: category_shaped_def category_def)
  then have "list_all category_shaped (categories @ [category])" using Cons.prems by simp
  then have "list_all category_shaped (gather_loop E items (categories @ [category]))"
    by (rule Cons.IH)
  moreover have "list_all category_shaped (gather_loop E items categories)"
    using Cons.prems by (rule Cons.IH)
  moreover have "gather_loop E (item # items) categories =
      (if startswith link ''javascript'' then gather_loop E items categories
       else gather_loop E items (categories @ [category]))"
    by (simp add: Let_def link_def link'_def category_def)
  ultimately show ?case by simp
qed

lemma parse_page_content_colls:
  "parse_page_content E rn url s = (r, s') \<Longrightarrow>
     category_coll s' = category_coll s \<and> articles_coll s' = articles_coll s"
  by (auto simp: parse_page_content_def and_then_def get_page_content_def
        get_request_content_def get_webdriver_content_def init_webdriver_def Let_def
        split: if_splits http_response.splits option.splits prod.splits sum.splits)

lemma gather_categories_Inr:
  assumes "gather_categories E url rn sel s = (Inr cats, s')"
  shows "list_all category_shaped cats \<and> category_coll s' = category_coll s @ [cats]"
proof -
  obtain sp s1 where p: "parse_page_content E rn url s = (Inr sp, s1)"
    and c: "cats = gather_loop E (select sp sel) []"
    and s': "s' = insert_many_to_collection cats s1"
    using assms
    by (auto simp: gather_categories_def and_then_def Let_def split: prod.splits sum.splits)
  have "list_all category_shaped cats" unfolding c by (rule gather_loop_shaped) simp
  moreover have "category_coll s' = category_coll s @ [cats]"
    using parse_page_content_colls[OF p] by (simp add: s' insert_many_to_collection_def)
  ultimately show ?thesis by simp
qed

lemma demo_tsn_categories: "tsn_categories demo_env start_state = (Inr tsn_found, after_tsn)"
  by (simp add: tsn_categories_def gather_categories_def insert_many_to_collection_def
        tsn_found_def after_tsn_def demo_defs fetch_defs Let_def)

lemma demo_ukrnet_categories:
  "ukrnet_categories demo_env after_tsn = (Inr ukrnet_found, after_discovery)"
  by (simp add: ukrnet_categories_def gather_categories_def insert_many_to_collection_def
        ukrnet_found_def after_tsn_def after_discovery_def demo_defs fetch_defs Let_def)

lemma demo_lower:
  "ascii_lower ''Groshi'' = ''groshi''"
  "ascii_lower ''Sport'' = ''sport''"
  "ascii_lower ''SPORT'' = ''sport''"
  "ascii_lower ''no-such-category'' = ''no-such-category''"
  by (simp_all add: ascii_lower_def)

text \<open>
  The loop of \<^verbatim>\<open>gather_categories\<close> appends to its list the records of the anchors that
  are not script links, in page order.
\<close>

lemma kept_categories_Cons:
  "kept_categories E (item # items) =
     (if startswith (href_text item) ''javascript'' then kept_categories E items
      else category_record E item # kept_categories E items)"
  by (simp add: kept_categories_def is_script_link_def)

lemma gather_loop_Cons:
  "gather_loop E (item # items) categories =
     (if startswith (href_text item) ''javascript'' then gather_loop E items categories
      else gather_loop E items (categories @ [category_record E item]))"
  by (simp add: Let_def href_text_def category_record_def)

lemma gather_loop_kept:
  "gather_loop E items categories = categories @ kept_categories E items"
proof (induction items arbitrary: categories)
  case Nil
  then show ?case by (simp add: kept_categories_def)
next
  case (Cons item items)
  show ?case
    unfolding gather_loop_Cons kept_categories_Cons
    by (simp add: Cons.IH)
qed

text \<open>
  C8. The categories that discovery returns are the records of the anchors of the index
  page whose link does not start with \<^verbatim>\<open>javascript\<close>, in page order: the other anchors
  are skipped. No returned link starts with \<^verbatim>\<open>javascript\<close>, and the list handed to the
  store is the list returned.
\<close>

theorem no_javascript_category:
  assumes "gather_categories E url resource_name selector s = (Inr categories, s')"
  shows "(\<exists>sp s1. parse_page_content E resource_name url s = (Inr sp, s1)
            \<and> categories = kept_categories E (select sp selector))
       \<and> (\<forall>c \<in> set categories. \<exists>l. c ''link'' = Some (PyStr l) \<and> \<not> startswith l ''javascript'')
       \<and> category_coll s' = category_coll s @ [categories]"
proof -
  obtain sp s1 where p: "parse_page_content E resource_name url s = (Inr sp, s1)"
    and c: "categories = gather_loop E (select sp selector) []"
    using assms
    by (auto simp: gather_categories_def and_then_def Let_def split: prod.splits sum.splits)
  have k: "categories = kept_categories E (select sp selector)"
    using c by (simp add: gather_loop_kept)
  have "list_all category_shaped categories"
    and coll: "category_coll s' = category_coll s @ [categories]"
    using gather_categories_Inr[OF assms] by simp_all
  then have "\<forall>c \<in> set categories. \<exists>l. c ''link'' = Some (PyStr l) \<and> startswith l ''https:''"
    using category_shapedD by (fastforce simp: list_all_iff)
  then show ?thesis using p k coll https_not_javascript by blast
qed

text \<open>
  C8 on the index page of the first site: of its two anchors the script link is skipped
  and one category is returned.
\<close>

theorem no_javascript_category_witness:
  "gather_categories demo_env tsn_url tsn_name ''ul.c-app-nav-more-list li a'' start_state
     = (Inr tsn_found, after_tsn)
   \<and> (\<exists>sp s1. parse_page_content demo_env tsn_name tsn_url start_state = (Inr sp, s1)
         \<and> tsn_found = kept_categories demo_env (select sp ''ul.c-app-nav-more-list li a''))
   \<and> length (select (demo_parse ''tsn-index'') ''ul.c-app-nav-more-list li a'') = 2
   \<and> length tsn_found = 1
   \<and> (\<exists>l. hd tsn_found ''link'' = Some (PyStr l) \<and> \<not> startswith l ''javascript'')
   \<and> category_coll after_tsn = category_coll start_state @ [tsn_found]"
proof -
  have g: "gather_categories demo_env tsn_url tsn_name ''ul.c-app-nav-more-list li a'' start_state
     = (Inr tsn_found, after_tsn)"
    using demo_tsn_categories by (simp add: tsn_categories_def)
  have h: "hd tsn_found \<in> set tsn_found" by (simp add: tsn_found_def)
  have n: "length (select (demo_parse ''tsn-index'') ''ul.c-app-nav-more-list li a'') = 2
      \<and> length tsn_found = 1"
    by (simp add: demo_parse_def no_soup_def tsn_found_def)
  show ?thesis using no_javascript_category [OF g] g h n by blast
qed

section \<open>Search by category\<close>

lemma find_category_shaped:
  "list_all category_shaped cs \<Longrightarrow>
     find_category E cn cs = Inr (find (name_matches E cn) cs)"
  by (induction cs) (auto simp: name_matches_def dest!: category_shapedD)

lemma search_by_category_find:
  assumes t: "tsn_categories E s = (Inr tsn, s1)"
    and u: "ukrnet_categories E s1 = (Inr ukrnet, s2)"
  shows "search_by_category E limit category_name s =
     (case find (name_matches E (str_lower E category_name)) (tsn @ ukrnet) of
        None \<Rightarrow> (Inr PyFalse, s2)
      | Some c \<Rightarrow> resolve_articles E limit (str_lower E category_name) c s2)"
proof -
  have "list_all category_shaped tsn" "list_all category_shaped ukrnet"
    using t u gather_categories_Inr unfolding tsn_categories_def ukrnet_categories_def by blast+
  then have "list_all category_shaped (tsn @ ukrnet)" by simp
  then show ?thesis
    using t u
    by (simp add: search_by_category_def and_then_def Let_def find_category_shaped
          split: option.split)
qed

lemma resolve_articles_not_False: "fst (resolve_articles E limit cn c s) \<noteq> Inr PyFalse"
  by (auto simp: resolve_articles_def and_then_def
        split: option.splits pyval.splits prod.splits sum.splits)

text \<open>
  C6. When discovery succeeds and no discovered category has the name, up to letter
  case, the search returns \<^verbatim>\<open>False\<close>, which is not the empty list of articles, and
  raises nothing.
\<close>

theorem search_by_category_not_found:
  assumes "tsn_categories E s = (Inr tsn, s1)"
    and "ukrnet_categories E s1 = (Inr ukrnet, s2)"
    and "\<forall>c \<in> set (tsn @ ukrnet). \<forall>n. c ''name'' = Some (PyStr n) \<longrightarrow>
           str_lower E n \<noteq> str_lower E category_name"
  shows "search_by_category E limit category_name s = (Inr PyFalse, s2)
       \<and> PyFalse \<noteq> Articles []"
proof -
  have "find (name_matches E (str_lower E category_name)) (tsn @ ukrnet) = None"
    using assms(3)
    by (auto simp: find_None_iff name_matches_def split: option.splits pyval.splits)
  then show ?thesis
    using search_by_category_find[OF assms(1,2)] by simp
qed

theorem search_by_category_not_found_witness:
  "search_by_category demo_env 10 ''no-such-category'' start_state = (Inr PyFalse, after_discovery)"
proof -
  have "\<forall>c \<in> set (tsn_found @ ukrnet_found). \<forall>n. c ''name'' = Some (PyStr n) \<longrightarrow>
           str_lower demo_env n \<noteq> str_lower demo_env ''no-such-category''"
    by (simp add: demo_env_def tsn_found_def ukrnet_found_def demo_lower)
  then show ?thesis
    using search_by_category_not_found [OF demo_tsn_categories demo_ukrnet_categories, of _ 10]
    by blast
qed

text \<open>
  C7. When discovery succeeds, a name that differs from the name of a discovered
  category in letter case only gives the same result as that name; the result is not
  \<^verbatim>\<open>False\<close>, and it is the resolution of the first category, in discovery order, whose
  lower-case name matches.
\<close>

theorem search_by_category_case_insensitive:
  assumes "tsn_categories E s = (Inr tsn, s1)"
    and "ukrnet_categories E s1 = (Inr ukrnet, s2)"
    and "c \<in> set (tsn @ ukrnet)"
    and "c ''name'' = Some (PyStr n)"
    and "str_lower E category_name = str_lower E n"
  shows "search_by_category E limit category_name s = search_by_category E limit n s
       \<and> fst (search_by_category E limit category_name s) \<noteq> Inr PyFalse
       \<and> (\<exists>c'. find (name_matches E (str_lower E n)) (tsn @ ukrnet) = Some c'
             \<and> search_by_category E limit category_name s =
                 resolve_articles E limit (str_lower E n) c' s2)"
proof -
  have "name_matches E (str_lower E n) c"
    using assms(4) by (simp add: name_matches_def)
  with assms(3) obtain c' where f: "find (name_matches E (str_lower E n)) (tsn @ ukrnet) = Some c'"
    by (cases "find (name_matches E (str_lower E n)) (tsn @ ukrnet)")
       (auto simp: find_None_iff)
  have a: "search_by_category E limit category_name s = resolve_articles E limit (str_lower E n) c' s2"
    using search_by_category_find[OF assms(1,2), of limit category_name] f assms(5) by simp
  have b: "search_by_category E limit n s = resolve_articles E limit (str_lower E n) c' s2"
    using search_by_category_find[OF assms(1,2), of limit n] f by simp
  show ?thesis using a b f resolve_articles_not_False by simp
qed

theorem search_by_category_case_insensitive_witness:
  "search_by_category demo_env 10 ''SPORT'' start_state
     = search_by_category demo_env 10 ''Sport'' start_state
   \<and> fst (search_by_category demo_env 10 ''SPORT'' start_state) \<noteq> Inr PyFalse"
proof -
  have m: "hd ukrnet_found \<in> set (tsn_found @ ukrnet_found)"
    by (simp add: ukrnet_found_def)
  have n: "hd ukrnet_found ''name'' = Some (PyStr ''Sport'')"
    by (simp add: ukrnet_found_def)
  have l: "str_lower demo_env ''SPORT'' = str_lower demo_env ''Sport''"
    by (simp add: demo_env_def demo_lower)
  show ?thesis
    using search_by_category_case_insensitive
      [OF demo_tsn_categories demo_ukrnet_categories m n l, of 10]
    by blast
qed

section \<open>Articles of the second site\<close>

text \<open>
  The loop of \<^verbatim>\<open>get_ukrnet_articles\<close> tests \<^verbatim>\<open>count <= self.limit\<close> with a counter that
  starts at zero, so a run that returns has taken the first \<open>limit + 1\<close> anchors, or all
  of them when there are fewer.
\<close>

lemma ukrnet_loop_length:
  "ukrnet_loop limit cn items count result s = (Inr res, s') \<Longrightarrow>
     length res = length result + min (length items) (nat (limit + 1 - count))"
proof (induction items arbitrary: count result s)
  case Nil
  then show ?case by simp
next
  case (Cons item items)
  show ?case
  proof (cases "count \<le> limit")
    case False
    then show ?thesis using Cons.prems by simp
  next
    case True
    from Cons.prems True obtain l c cs where h: "href item = Some l" and c: "contents item = c # cs"
      by (auto split: option.splits list.splits)
    define article where "article = [''link'' \<mapsto> PyStr (if startswith l ''//'' then drop 2 l else l),
                                  ''category'' \<mapsto> PyStr cn, ''content'' \<mapsto> node_val c]"
    have "ukrnet_loop limit cn items (count + 1) (result @ [article])
            (insert_one_to_collection article s) = (Inr res, s')"
      using Cons.prems True h c by (simp add: Let_def article_def)
    from Cons.IH[OF this]
    have "length res = length result + 1 + min (length items) (nat (limit + 1 - (count + 1)))"
      by simp
    moreover have "nat (limit + 1 - count) = Suc (nat (limit + 1 - (count + 1)))"
      using True by arith
    ultimately show ?thesis by simp
  qed
qed

text \<open>
  C1. The claim bounds the number of articles by the limit. With limit 2 and a listing
  page of three anchors, the code returns three articles and hands three to the store.
\<close>

theorem ukrnet_limit_exceeded:
  "map_option length (returned (get_ukrnet_articles demo_env 2 ''sport''
       ''https://www.ukr.net/news/sport.html'' start_state)) = Some 3
   \<and> length (articles_coll (snd (get_ukrnet_articles demo_env 2 ''sport''
       ''https://www.ukr.net/news/sport.html'' start_state))) = 3"
  by (simp add: returned_def get_ukrnet_articles_def insert_one_to_collection_def
        demo_defs fetch_defs Let_def)

text \<open>
  A link that starts with two slashes starts with neither \<^verbatim>\<open>javascript\<close> nor
  \<^verbatim>\<open>https:\<close>, and with \<^verbatim>\<open>https:\<close> in front it names its scheme.
\<close>

lemma protocol_relative_prefixes:
  "startswith l ''//'' \<Longrightarrow> \<not> startswith l ''javascript'' \<and> \<not> startswith l ''https:''
     \<and> scheme_qualified (''https:'' @ l)"
  by (cases l) (auto simp: scheme_qualified_def)

lemma gather_loop_keeps: "set categories \<subseteq> set (gather_loop E items categories)"
proof (induction items arbitrary: categories)
  case Nil
  then show ?case by simp
next
  case (Cons item items)
  have "set categories \<subseteq> set (gather_loop E items categories)" by (rule Cons.IH)
  moreover have "set (categories @ [c]) \<subseteq> set (gather_loop E items (categories @ [c]))" for c
    by (rule Cons.IH)
  ultimately show ?case by (auto simp: Let_def)
qed

lemma gather_loop_protocol_relative:
  assumes "item \<in> set items" and "href item = Some l" and "startswith l ''//''"
    and c: "c = [''link'' \<mapsto> PyStr (''https:'' @ l),
                 ''name'' \<mapsto> PyStr (str_strip E (get_text item))]"
  shows "c \<in> set (gather_loop E items categories)"
  using assms(1)
proof (induction items arbitrary: categories)
  case Nil
  then show ?case by simp
next
  case (Cons x xs)
  show ?case
  proof (cases "x = item")
    case True
    have "gather_loop E (x # xs) categories = gather_loop E xs (categories @ [c])"
      using True assms(2) protocol_relative_prefixes[OF assms(3)] by (simp add: Let_def c)
    moreover have "c \<in> set (categories @ [c])" by simp
    ultimately show ?thesis using gather_loop_keeps by fastforce
  next
    case False
    then have "item \<in> set xs" using Cons.prems by simp
    then have "c \<in> set (gather_loop E xs cs)" for cs using Cons.IH by blast
    then show ?thesis by (simp add: Let_def)
  qed
qed

lemma ukrnet_loop_links:
  "ukrnet_loop limit cn items count result s = (Inr res, s') \<Longrightarrow>
     \<exists>new. res = result @ new \<and> list_all2 stored_link (take (length new) items) new"
proof (induction items arbitrary: count result s)
  case Nil
  then show ?case by simp
next
  case (Cons item items)
  show ?case
  proof (cases "count \<le> limit")
    case False
    then show ?thesis using Cons.prems by simp
  next
    case True
    from Cons.prems True obtain l c cs where h: "href item = Some l" and c: "contents item = c # cs"
      by (auto split: option.splits list.splits)
    define article where "article = [''link'' \<mapsto> PyStr (if startswith l ''//'' then drop 2 l else l),
                                  ''category'' \<mapsto> PyStr cn, ''content'' \<mapsto> node_val c]"
    have "ukrnet_loop limit cn items (count + 1) (result @ [article])
            (insert_one_to_collection article s) = (Inr res, s')"
      using Cons.prems True h c by (simp add: Let_def article_def)
    from Cons.IH[OF this] obtain new where
      n: "res = (result @ [article]) @ new" "list_all2 stored_link (take (length new) items) new"
      by blast
    have "stored_link item article" by (simp add: stored_link_def h article_def)
    then have "list_all2 stored_link (take (length (article # new)) (item # items)) (article # new)"
      using n(2) by simp
    moreover have "res = result @ (article # new)" using n(1) by simp
    ultimately show ?thesis by blast
  qed
qed

text \<open>
  C5, as stated, fails in article extraction: \<^verbatim>\<open>get_ukrnet_articles\<close> removes the two
  slashes of the link \<^verbatim>\<open>//www.ukr.net/news/a.html\<close> and stores what is left, which
  names no scheme.
\<close>

theorem ukrnet_link_loses_scheme:
  "startswith ''//www.ukr.net/news/a.html'' ''//''
   \<and> map_option (field ''link'') (returned (get_ukrnet_articles demo_env 0 ''sport''
        ''https://www.ukr.net/news/sport.html'' start_state))
       = Some [Some (PyStr ''www.ukr.net/news/a.html'')]
   \<and> \<not> scheme_qualified ''www.ukr.net/news/a.html''"
  by (simp add: returned_def field_def scheme_qualified_def get_ukrnet_articles_def
        insert_one_to_collection_def demo_defs fetch_defs Let_def)

text \<open>
  C5, amended. In category discovery a link that starts with two slashes is stored with
  \<^verbatim>\<open>https:\<close> in front, which names its scheme. In \<^verbatim>\<open>get_ukrnet_articles\<close> the article
  of each anchor stores the anchor's link with its two leading slashes removed, and
  unchanged when it has none; no scheme is added.
\<close>

theorem protocol_relative_links:
  "(parse_page_content E resource_name url s = (Inr sp, s1)
      \<and> item \<in> set (select sp selector) \<and> href item = Some l \<and> startswith l ''//''
    \<longrightarrow> scheme_qualified (''https:'' @ l)
        \<and> (\<exists>categories s'. gather_categories E url resource_name selector s = (Inr categories, s')
              \<and> [''link'' \<mapsto> PyStr (''https:'' @ l),
                  ''name'' \<mapsto> PyStr (str_strip E (get_text item))] \<in> set categories))
   \<and> (parse_page_content E ukrnet_name url' t = (Inr sp', t1)
      \<and> get_ukrnet_articles E limit category_name url' t = (Inr articles, t')
    \<longrightarrow> list_all2 stored_link (take (length articles) (select sp' ''div.im-tl a'')) articles)"
proof (intro conjI impI)
  assume a: "parse_page_content E resource_name url s = (Inr sp, s1)
      \<and> item \<in> set (select sp selector) \<and> href item = Some l \<and> startswith l ''//''"
  then show "scheme_qualified (''https:'' @ l)" using protocol_relative_prefixes by blast
  from a have "[''link'' \<mapsto> PyStr (''https:'' @ l),
                  ''name'' \<mapsto> PyStr (str_strip E (get_text item))]
                 \<in> set (gather_loop E (select sp selector) [])"
    by (intro gather_loop_protocol_relative[where item = item and l = l]) simp_all
  then show "\<exists>categories s'. gather_categories E url resource_name selector s = (Inr categories, s')
              \<and> [''link'' \<mapsto> PyStr (''https:'' @ l),
                  ''name'' \<mapsto> PyStr (str_strip E (get_text item))] \<in> set categories"
    using a by (simp add: gather_categories_def and_then_def Let_def)
next
  assume b: "parse_page_content E ukrnet_name url' t = (Inr sp', t1)
      \<and> get_ukrnet_articles E limit category_name url' t = (Inr articles, t')"
  then have "ukrnet_loop limit category_name (select sp' ''div.im-tl a'') 0 [] t1 = (Inr articles, t')"
    by (auto simp: get_ukrnet_articles_def and_then_def)
  from ukrnet_loop_links[OF this]
  show "list_all2 stored_link (take (length articles) (select sp' ''div.im-tl a'')) articles"
    by simp
qed

text \<open>The amended C5 on the index page and the listing page of the second site.\<close>

theorem protocol_relative_links_witness:
  "scheme_qualified ''https://www.ukr.net/news/sport.html''
   \<and> (\<exists>categories s'. ukrnet_categories demo_env after_tsn = (Inr categories, s')
         \<and> [''link'' \<mapsto> PyStr ''https://www.ukr.net/news/sport.html'',
             ''name'' \<mapsto> PyStr ''Sport''] \<in> set categories)
   \<and> (\<exists>articles t'. get_ukrnet_articles demo_env 10 ''sport''
          ''https://www.ukr.net/news/sport.html'' start_state = (Inr articles, t')
         \<and> list_all2 stored_link
             (take (length articles) (select (demo_parse ''ukr-listing'') ''div.im-tl a''))
             articles)"
proof -
  define item where "item = anchor ''//www.ukr.net/news/sport.html'' ''Sport''"
  obtain s1 where p: "parse_page_content demo_env ukrnet_name ukrnet_url after_tsn
      = (Inr (demo_parse ''ukr-index''), s1)"
    by (simp add: demo_env_def start_state_def after_tsn_def fetch_defs Let_def)
  have m: "item \<in> set (select (demo_parse ''ukr-index'') ''h2.feed__section--title a'')"
    by (simp add: demo_parse_def no_soup_def item_def)
  have h: "href item = Some ''//www.ukr.net/news/sport.html''"
    and g: "str_strip demo_env (get_text item) = ''Sport''"
    by (simp_all add: item_def anchor_def demo_env_def ascii_strip_def)
  obtain t1 where q: "parse_page_content demo_env ukrnet_name
      ''https://www.ukr.net/news/sport.html'' start_state = (Inr (demo_parse ''ukr-listing''), t1)"
    by (simp add: demo_env_def start_state_def fetch_defs Let_def)
  obtain articles t' where r: "get_ukrnet_articles demo_env 10 ''sport''
          ''https://www.ukr.net/news/sport.html'' start_state = (Inr articles, t')"
    by (simp add: get_ukrnet_articles_def insert_one_to_collection_def
        demo_defs fetch_defs Let_def)
  have a: "scheme_qualified (''https:'' @ ''//www.ukr.net/news/sport.html'')
        \<and> (\<exists>categories s'. gather_categories demo_env ukrnet_url ukrnet_name
               ''h2.feed__section--title a'' after_tsn = (Inr categories, s')
              \<and> [''link'' \<mapsto> PyStr (''https:'' @ ''//www.ukr.net/news/sport.html''),
                  ''name'' \<mapsto> PyStr (str_strip demo_env (get_text item))] \<in> set categories)"
    using protocol_relative_links
      [of demo_env ukrnet_name ukrnet_url after_tsn "demo_parse ''ukr-index''" s1 item
          "''h2.feed__section--title a''" "''//www.ukr.net/news/sport.html''",
       THEN conjunct1] p m h
    by simp
  have b: "list_all2 stored_link
             (take (length articles) (select (demo_parse ''ukr-listing'') ''div.im-tl a''))
             articles"
    using protocol_relative_links
      [of demo_env _ _ _ _ _ _ _ _ "''https://www.ukr.net/news/sport.html''" start_state
          "demo_parse ''ukr-listing''" t1 10 "''sport''" articles t',
       THEN conjunct2] q r
    by simp
  show ?thesis using a b r by (simp add: g ukrnet_categories_def)
qed

section \<open>Articles of the first site\<close>

text \<open>A connection failure makes \<^verbatim>\<open>download_image\<close> raise.\<close>

lemma download_image_fails:
  "requests_get E src = ConnectionError \<Longrightarrow> \<exists>e. fst (download_image E src s) = Inl e"
  by (simp add: download_image_def Let_def split: sum.split)

lemma tsn_listing_download_fails:
  assumes "href item = Some link" and "endswith link ''.html''"
    and "find_img item = Some (Some src)" and "src \<noteq> []"
    and "\<not> startswith src ''data:image''" and "\<not> startswith src ''javascript''"
    and "requests_get E src = ConnectionError"
  shows "item \<in> set (take (nat (limit + 1 - count)) items) \<Longrightarrow>
     \<exists>e. fst (tsn_listing E limit cn items count data s) = Inl e"
proof (induction items arbitrary: count data s)
  case Nil
  then show ?case by simp
next
  case (Cons x xs)
  have le: "count \<le> limit"
  proof (rule ccontr)
    assume "\<not> count \<le> limit"
    then have "nat (limit + 1 - count) = 0" by simp
    then show False using Cons.prems by simp
  qed
  then have "nat (limit + 1 - count) = Suc (nat (limit + 1 - (count + 1)))" by arith
  then have t: "take (nat (limit + 1 - count)) (x # xs) = x # take (nat (limit + 1 - (count + 1))) xs"
    by simp
  show ?case
  proof (cases "x = item")
    case True
    obtain e where "fst (download_image E src s) = Inl e"
      using download_image_fails[OF assms(7)] by blast
    then have "\<exists>s'. tsn_thumbnail E (Some src) [''link'' \<mapsto> PyStr link] s = (Inl e, s')"
      using assms(4,5,6)
      by (cases "download_image E src s") (simp add: tsn_thumbnail_def and_then_def)
    then show ?thesis using True le assms(1,2,3) by auto
  next
    case False
    then have m: "item \<in> set (take (nat (limit + 1 - (count + 1))) xs)"
      using Cons.prems t by simp
    have ih: "\<exists>e. fst (tsn_listing E limit cn xs (count + 1) d s'') = Inl e" for d s''
      using Cons.IH[OF m] by blast
    show ?thesis
      using le ih
      by (auto split: option.split prod.split sum.split)
  qed
qed

text \<open>
  C2, as stated, fails. The listing page has one article; its page can be fetched and
  has a title and no figure, and only its image cannot be fetched. \<^verbatim>\<open>get_tsn_articles\<close>
  raises the connection error right after the request for the image, before any article
  page is fetched, instead of returning the article without the image.
\<close>

theorem download_failure_example:
  "requests_get demo_env ''https://img.tsn.ua/a.jpg'' = ConnectionError
   \<and> requests_get demo_env ''https://tsn.ua/groshi/a.html'' = Response 200 ''tsn-article-titled''
   \<and> select (demo_parse ''tsn-article-titled'') ''div.c-post-meta h1''
        = [anchor [] ''State budget passed'']
   \<and> find_figure (demo_parse ''tsn-article-titled'') = None
   \<and> get_tsn_articles demo_env 10 ''groshi'' ''https://tsn.ua/groshi'' start_state
     = (Inl RequestException,
        start_state\<lparr>trace := [HttpGet ''https://tsn.ua/groshi'',
                               ImageGet ''https://img.tsn.ua/a.jpg'']\<rparr>)"
  by (simp add: get_tsn_articles_def tsn_thumbnail_def endswith_def read_header_def
        download_image_def local_filename_def
        demo_defs fetch_defs Let_def)

text \<open>On the same pages, with an image that can be fetched, the article is returned.\<close>

lemma download_success_example:
  "map_option (field ''title'') (returned (get_tsn_articles image_env 10 ''groshi''
       ''https://tsn.ua/groshi'' start_state)) = Some [Some (PyStr ''State budget passed'')]
   \<and> map_option (field ''images'') (returned (get_tsn_articles image_env 10 ''groshi''
       ''https://tsn.ua/groshi'' start_state))
      = Some [Some (PyList [PyStr ''https://img.tsn.ua/a.jpg''])]
   \<and> trace (snd (get_tsn_articles image_env 10 ''groshi'' ''https://tsn.ua/groshi'' start_state))
      = [HttpGet ''https://tsn.ua/groshi'', ImageGet ''https://img.tsn.ua/a.jpg'',
         HttpGet ''https://tsn.ua/groshi/a.html'']"
  by (simp add: get_tsn_articles_def tsn_thumbnail_def endswith_def read_header_def
        download_image_def local_filename_def returned_def field_def
        insert_one_to_collection_def image_env_def
        demo_defs fetch_defs Let_def)

text \<open>
  C2, amended. When the image of an anchor among the first \<open>limit + 1\<close> of the listing
  page is to be downloaded (the link ends in \<^verbatim>\<open>.html\<close>, the image address is a non-empty
  string that starts with neither \<^verbatim>\<open>data:image\<close> nor \<^verbatim>\<open>javascript\<close>) and the request for
  it fails, \<^verbatim>\<open>get_tsn_articles\<close> raises and returns no articles.
\<close>

theorem download_failure_propagates:
  assumes "parse_page_content E tsn_name url s = (Inr sp, s1)"
    and "item \<in> set (take (nat (limit + 1)) (select sp ''div.c-entry-embed a.c-post-img-wrap''))"
    and "href item = Some link" and "endswith link ''.html''"
    and "find_img item = Some (Some src)" and "src \<noteq> []"
    and "\<not> startswith src ''data:image''" and "\<not> startswith src ''javascript''"
    and "requests_get E src = ConnectionError"
  shows "\<exists>e. fst (get_tsn_articles E limit category_name url s) = Inl e"
proof -
  have "item \<in> set (take (nat (limit + 1 - 0))
          (select sp ''div.c-entry-embed a.c-post-img-wrap''))"
    using assms(2) by simp
  from tsn_listing_download_fails[OF assms(3-9) this]
  obtain e where "fst (tsn_listing E limit category_name
          (select sp ''div.c-entry-embed a.c-post-img-wrap'') 0 [] s1) = Inl e"
    by blast
  then show ?thesis
    using assms(1)
    by (cases "tsn_listing E limit category_name
          (select sp ''div.c-entry-embed a.c-post-img-wrap'') 0 [] s1")
       (simp add: get_tsn_articles_def and_then_def)
qed

text \<open>The amended C2 on the listing page whose image cannot be fetched.\<close>

theorem download_failure_propagates_witness:
  "\<exists>e. fst (get_tsn_articles demo_env 10 ''groshi'' ''https://tsn.ua/groshi'' start_state) = Inl e"
proof -
  define item where "item = (anchor ''https://tsn.ua/groshi/a.html'' [])
                           \<lparr>find_img := Some (Some ''https://img.tsn.ua/a.jpg'')\<rparr>"
  have p: "parse_page_content demo_env tsn_name ''https://tsn.ua/groshi'' start_state
      = (Inr (demo_parse ''tsn-listing''), start_state\<lparr>trace := [HttpGet ''https://tsn.ua/groshi'']\<rparr>)"
    by (simp add: demo_env_def start_state_def fetch_defs Let_def)
  have m: "item \<in> set (take (nat (10 + 1))
             (select (demo_parse ''tsn-listing'') ''div.c-entry-embed a.c-post-img-wrap''))"
    by (simp add: demo_parse_def no_soup_def item_def)
  have h: "href item = Some ''https://tsn.ua/groshi/a.html''"
    and i: "find_img item = Some (Some ''https://img.tsn.ua/a.jpg'')"
    by (simp_all add: item_def anchor_def)
  have e: "endswith ''https://tsn.ua/groshi/a.html'' ''.html''" by (simp add: endswith_def)
  have r: "requests_get demo_env ''https://img.tsn.ua/a.jpg'' = ConnectionError"
    by (simp add: demo_env_def)
  show ?thesis
    by (rule download_failure_propagates [OF p m h e i _ _ _ r]) simp_all
qed

text \<open>
  In the second loop the title is assigned only when the page has a header. On the first
  article of a run the variable is then unbound when it is read.
\<close>

lemma tsn_pages_untitled:
  assumes "article ''link'' = Some (PyStr url)"
    and "parse_page_content E tsn_name url s = (Inr sp, s1)"
    and "select sp ''div.c-post-meta h1'' = []"
    and "find_figure sp = None"
    and "article ''category'' = Some c"
  shows "tsn_pages E (article # data) None result s = (Inl UnboundLocalError, s1)"
  using assms by (simp add: read_header_def Let_def)

text \<open>
  C4. The claim says that a page without a title still gives an article. The listing
  page has one article whose page has two paragraphs, no header and no figure, and
  \<^verbatim>\<open>get_tsn_articles\<close> raises \<^verbatim>\<open>UnboundLocalError\<close>.
\<close>

theorem missing_title_raises:
  "select (demo_parse ''tsn-article-untitled'') ''div.c-post-meta h1'' = []
   \<and> fst (get_tsn_articles demo_env 10 ''svit'' ''https://tsn.ua/svit'' start_state)
     = Inl UnboundLocalError"
  by (simp add: get_tsn_articles_def tsn_thumbnail_def endswith_def read_header_def
        demo_defs fetch_defs Let_def)

section \<open>Search by text\<close>

lemma deref_setitem:
  "deref (setitem st a k v) b = (if b = a then (deref st a)(k \<mapsto> v) else deref st b)"
  by (simp add: deref_def setitem_def)

lemma search_items_step:
  assumes "link ''name'' = Some nm" and "contents item = NavigableString c # cs"
  shows "search_items E link a (item # items) (result, st) s =
     search_items E link a items
       (result @ [a],
        setitem (setitem (setitem st a ''link'' (link_value item)) a ''category'' nm)
          a ''content'' (PyStr (str_strip E c)))
       (insert_one_to_collection
          (deref (setitem (setitem (setitem st a ''link'' (link_value item)) a ''category'' nm)
             a ''content'' (PyStr (str_strip E c))) a) s)"
  using assms by (simp add: Let_def link_value_def)

lemma shared_record_step:
  assumes "link ''name'' = Some nm" and "contents item = NavigableString c # cs"
  shows "shared_record E link [item]
     (setitem (setitem (setitem st a ''link'' (link_value item)) a ''category'' nm)
          a ''content'' (PyStr (str_strip E c))) a"
  using assms by (simp add: shared_record_def deref_setitem first_string_def)

lemma search_items_Inr:
  "search_items E link a items (result, st) s = (Inr (res, st'), s') \<Longrightarrow>
     res = result @ replicate (length items) a
     \<and> (items \<noteq> [] \<longrightarrow> shared_record E link items st' a)"
proof (induction items arbitrary: result st s)
  case Nil
  then show ?case by simp
next
  case (Cons item items)
  from Cons.prems obtain nm c cs where n: "link ''name'' = Some nm"
    and c: "contents item = NavigableString c # cs"
    by (auto simp: Let_def split: option.splits list.splits node.splits)
  define st3 where "st3 = setitem (setitem (setitem st a ''link'' (link_value item)) a ''category'' nm)
          a ''content'' (PyStr (str_strip E c))"
  have run: "search_items E link a items (result @ [a], st3)
               (insert_one_to_collection (deref st3 a) s) = (Inr (res, st'), s')"
    using Cons.prems search_items_step[where link = link and E = E and a = a and items = items and result = result
        and st = st and s = s, OF n c] by (simp add: st3_def)
  from Cons.IH[OF run] have res: "res = (result @ [a]) @ replicate (length items) a"
    and rec: "items \<noteq> [] \<longrightarrow> shared_record E link items st' a"
    by simp_all
  have "shared_record E link (item # items) st' a"
  proof (cases items)
    case Nil
    then have "st' = st3" using run by simp
    then show ?thesis using shared_record_step[where link = link and E = E and st = st and a = a, OF n c] Nil by (simp add: st3_def)
  next
    case (Cons y ys)
    then show ?thesis using rec by (simp add: shared_record_def)
  qed
  moreover have "res = result @ replicate (length (item # items)) a"
    using res by (simp add: replicate_append_same)
  ultimately show ?case by simp
qed

lemma search_items_returns:
  assumes "link ''name'' = Some nm"
  shows "\<forall>item \<in> set items. first_string item \<noteq> None \<Longrightarrow>
     \<exists>r s'. search_items E link a items (result, st) s = (Inr r, s')"
proof (induction items arbitrary: result st s)
  case Nil
  then show ?case by simp
next
  case (Cons item items)
  then obtain c cs where c: "contents item = NavigableString c # cs"
    by (auto simp: first_string_def split: list.splits node.splits)
  show ?case
    unfolding search_items_step[where link = link, OF assms c]
    using Cons by simp
qed

text \<open>
  A search creates one dictionary per category link, numbered from the next free
  reference; it appends references of these dictionaries only and leaves the
  dictionaries that existed before as they were.
\<close>


lemma search_items_frame:
  "search_items E link a items (result, st) s = (Inr (res, st'), s') \<Longrightarrow>
     next_ref st' = next_ref st \<and> (\<forall>b. b \<noteq> a \<longrightarrow> deref st' b = deref st b)"
proof (induction items arbitrary: result st s)
  case Nil
  then show ?case by simp
next
  case (Cons item items)
  from Cons.prems obtain nm c cs where n: "link ''name'' = Some nm"
    and c: "contents item = NavigableString c # cs"
    by (auto simp: Let_def split: option.splits list.splits node.splits)
  define st3 where "st3 = setitem (setitem (setitem st a ''link'' (link_value item)) a ''category'' nm)
          a ''content'' (PyStr (str_strip E c))"
  have run: "search_items E link a items (result @ [a], st3)
               (insert_one_to_collection (deref st3 a) s) = (Inr (res, st'), s')"
    using Cons.prems search_items_step[where link = link and E = E and a = a and items = items
        and result = result and st = st and s = s, OF n c]
    by (simp add: st3_def)
  have "next_ref st3 = next_ref st" by (simp add: st3_def setitem_def)
  moreover have "\<forall>b. b \<noteq> a \<longrightarrow> deref st3 b = deref st b"
    by (simp add: st3_def deref_setitem)
  ultimately show ?case using Cons.IH[OF run] by simp
qed

lemma search_links_Cons_Inr:
  assumes "search_links E t (link # links) (result, st) s = (Inr (res, st'), s')"
  obtains url sp s1 r1 st1 s2 where
    "link ''link'' = Some (PyStr url)"
    "parse_page_content E (if str_contains tsn_name url then tsn_name else ukrnet_name) url s
       = (Inr sp, s1)"
    "re_compile E t"
    "search_items E link (next_ref st) (find_all_a sp t)
       (result, st\<lparr>objects := (objects st)(next_ref st \<mapsto> Map.empty),
                   next_ref := Suc (next_ref st)\<rparr>) s1 = (Inr (r1, st1), s2)"
    "search_links E t links (r1, st1) s2 = (Inr (res, st'), s')"
  using assms
  by (auto simp: new_dict_def split: option.splits pyval.splits prod.splits sum.splits if_splits)

lemma search_links_frame:
  "search_links E t links (result, st) s = (Inr (res, st'), s') \<Longrightarrow>
     next_ref st' = next_ref st + length links
     \<and> (\<exists>rest. res = result @ rest \<and> (\<forall>b \<in> set rest. next_ref st \<le> b \<and> b < next_ref st'))
     \<and> (\<forall>b. b < next_ref st \<longrightarrow> deref st' b = deref st b)"
proof (induction links arbitrary: result st s)
  case Nil
  then show ?case by simp
next
  case (Cons link links)
  from Cons.prems obtain url sp s1 r1 st1 s2 where
    "link ''link'' = Some (PyStr url)"
    and "parse_page_content E (if str_contains tsn_name url then tsn_name else ukrnet_name) url s
       = (Inr sp, s1)"
    and "re_compile E t"
    and items: "search_items E link (next_ref st) (find_all_a sp t)
       (result, st\<lparr>objects := (objects st)(next_ref st \<mapsto> Map.empty),
                   next_ref := Suc (next_ref st)\<rparr>) s1 = (Inr (r1, st1), s2)"
    and rest: "search_links E t links (r1, st1) s2 = (Inr (res, st'), s')"
    by (rule search_links_Cons_Inr)
  define st0 where "st0 = st\<lparr>objects := (objects st)(next_ref st \<mapsto> Map.empty),
                   next_ref := Suc (next_ref st)\<rparr>"
  have r1: "r1 = result @ replicate (length (find_all_a sp t)) (next_ref st)"
    using search_items_Inr[OF items] by simp
  have n1: "next_ref st1 = Suc (next_ref st)"
    and f1: "\<forall>b. b \<noteq> next_ref st \<longrightarrow> deref st1 b = deref st0 b"
    using search_items_frame[OF items] by (simp_all add: st0_def)
  have f0: "\<forall>b. b \<noteq> next_ref st \<longrightarrow> deref st0 b = deref st b"
    by (simp add: st0_def deref_def)
  from Cons.IH[OF rest] obtain rest' where
    n': "next_ref st' = next_ref st1 + length links"
    and res: "res = r1 @ rest'"
    and bounds: "\<forall>b \<in> set rest'. next_ref st1 \<le> b \<and> b < next_ref st'"
    and f': "\<forall>b. b < next_ref st1 \<longrightarrow> deref st' b = deref st1 b"
    by blast
  have "next_ref st' = next_ref st + length (link # links)" using n' n1 by simp
  moreover have "res = result @ (replicate (length (find_all_a sp t)) (next_ref st) @ rest')"
    using res r1 by simp
  moreover have "\<forall>b \<in> set (replicate (length (find_all_a sp t)) (next_ref st) @ rest').
      next_ref st \<le> b \<and> b < next_ref st'"
    using bounds n1 n' by auto
  moreover have "\<forall>b. b < next_ref st \<longrightarrow> deref st' b = deref st b"
    using f' f1 f0 n1 by simp
  ultimately show ?case by blast
qed

lemma search_links_append:
  "search_links E t (xs @ ys) acc s =
     (case search_links E t xs acc s of
        (Inl e, s') \<Rightarrow> (Inl e, s')
      | (Inr acc', s') \<Rightarrow> search_links E t ys acc' s')"
proof (induction xs arbitrary: acc s)
  case Nil
  then show ?case by simp
next
  case (Cons x xs)
  obtain result st where acc: "acc = (result, st)" by (cases acc)
  show ?case
    unfolding acc
    by (simp add: Cons.IH split: option.split pyval.split prod.split sum.split)
qed

text \<open>
  C9. A text search over a list of category links: take any link of the list whose
  listing page, fetched after the earlier links were searched, has two or more matching
  anchors. When the whole search returns, the result holds, after the references of the
  earlier links, one reference once per matching anchor of that page; the reference is
  the position of the link in the list, it occurs nowhere else in the result, and in the
  final store its dictionary holds the link and the content of the page's last match and
  the name of the category. The search of that page returns whenever the category has a
  name and the first child of every matching anchor is a string.
\<close>

theorem text_search_shared_record:
  assumes "search_links E text_searched earlier ([], empty_store) s0 = (Inr (result, st), s)"
    and "link ''link'' = Some (PyStr url)"
    and "parse_page_content E (if str_contains tsn_name url then tsn_name else ukrnet_name) url s
           = (Inr sp, s1)"
    and "re_compile E text_searched"
    and "2 \<le> length (find_all_a sp text_searched)"
  shows "(website_search_by_text E text_searched (earlier @ link # later) s0
            = (Inr (res, st'), s') \<longrightarrow>
            (\<exists>rest. res = result @ replicate (length (find_all_a sp text_searched)) (length earlier)
                           @ rest
                 \<and> length earlier \<notin> set result \<and> length earlier \<notin> set rest)
            \<and> shared_record E link (find_all_a sp text_searched) st' (length earlier))
       \<and> (link ''name'' \<noteq> None
            \<and> (\<forall>item \<in> set (find_all_a sp text_searched). first_string item \<noteq> None)
          \<longrightarrow> (\<exists>r t. search_links E text_searched [link] (result, st) s = (Inr r, t)))"
proof -
  define items where "items = find_all_a sp text_searched"
  define st0 where "st0 = st\<lparr>objects := (objects st)(next_ref st \<mapsto> Map.empty),
                             next_ref := Suc (next_ref st)\<rparr>"
  from search_links_frame[OF assms(1)] have a: "next_ref st = length earlier"
    and old: "\<forall>b \<in> set result. b < next_ref st"
    by (auto simp: empty_store_def)
  have A: "(\<exists>rest. res = result @ replicate (length items) (length earlier) @ rest
                 \<and> length earlier \<notin> set result \<and> length earlier \<notin> set rest)
            \<and> shared_record E link items st' (length earlier)"
    if run: "website_search_by_text E text_searched (earlier @ link # later) s0
            = (Inr (res, st'), s')"
  proof -
    have "search_links E text_searched (link # later) (result, st) s = (Inr (res, st'), s')"
      using run assms(1)
      by (simp add: website_search_by_text_def search_links_append empty_store_def)
    then obtain url' sp' s1' r1 st1 s2 where
      l: "link ''link'' = Some (PyStr url')"
      and p: "parse_page_content E
                (if str_contains tsn_name url' then tsn_name else ukrnet_name) url' s
              = (Inr sp', s1')"
      and "re_compile E text_searched"
      and i: "search_items E link (next_ref st) (find_all_a sp' text_searched) (result, st0) s1'
              = (Inr (r1, st1), s2)"
      and r: "search_links E text_searched later (r1, st1) s2 = (Inr (res, st'), s')"
      unfolding st0_def by (rule search_links_Cons_Inr)
    have "url' = url" using l assms(2) by simp
    then have "sp' = sp" "s1' = s1" using p assms(3) by simp_all
    then have i': "search_items E link (next_ref st) items (result, st0) s1 = (Inr (r1, st1), s2)"
      using i by (simp add: items_def)
    have r1: "r1 = result @ replicate (length items) (next_ref st)"
      and rec: "shared_record E link items st1 (next_ref st)"
      using search_items_Inr[OF i'] assms(5) by (auto simp: items_def)
    have n1: "next_ref st1 = Suc (next_ref st)"
      using search_items_frame[OF i'] by (simp add: st0_def)
    from search_links_frame[OF r] obtain rest where
      res: "res = r1 @ rest"
      and bounds: "\<forall>b \<in> set rest. next_ref st1 \<le> b"
      and keep: "\<forall>b. b < next_ref st1 \<longrightarrow> deref st' b = deref st1 b"
      by blast
    have "deref st' (next_ref st) = deref st1 (next_ref st)" using keep n1 by simp
    then have "shared_record E link items st' (next_ref st)"
      using rec by (simp add: shared_record_def)
    moreover have "next_ref st \<notin> set rest" using bounds n1 by auto
    moreover have "next_ref st \<notin> set result" using old by auto
    moreover have "res = result @ replicate (length items) (next_ref st) @ rest"
      using res r1 by simp
    ultimately show ?thesis using a by auto
  qed
  have eq: "search_links E text_searched [link] (result, st) s =
      (case search_items E link (next_ref st) items (result, st0) s1 of
         (Inl e, s2) \<Rightarrow> (Inl e, s2)
       | (Inr acc, s2) \<Rightarrow> (Inr acc, s2))"
    using assms(2,3,4)
    by (simp add: new_dict_def st0_def items_def split: prod.split sum.split)
  have B: "\<exists>r t. search_links E text_searched [link] (result, st) s = (Inr r, t)"
    if w: "link ''name'' \<noteq> None \<and> (\<forall>item \<in> set items. first_string item \<noteq> None)"
  proof -
    from w obtain nm where "link ''name'' = Some nm" by auto
    from search_items_returns[where link = link and items = items and E = E
        and a = "next_ref st" and result = result and st = st0 and s = s1, OF this] w
    obtain r t where "search_items E link (next_ref st) items (result, st0) s1 = (Inr r, t)"
      by blast
    then show ?thesis unfolding eq by simp
  qed
  show ?thesis using A B unfolding items_def by blast
qed

text \<open>
  C9 on the listing pages of both sites, two matches each: the result is the references
  0, 0, 1, 1, and each dictionary holds the last match of its own page.
\<close>

theorem text_search_shared_record_witness:
  "\<exists>st' s'. website_search_by_text demo_env ''budget'' (ukrnet_found @ tsn_found) start_state
       = (Inr ([0, 0, 1, 1], st'), s')
     \<and> deref st' 0 ''link'' = Some (PyStr ''//www.ukr.net/news/c.html'')
     \<and> deref st' 0 ''category'' = Some (PyStr ''Sport'')
     \<and> deref st' 0 ''content'' = Some (PyStr ''City budget plan'')
     \<and> deref st' 1 ''link'' = Some (PyStr ''https://tsn.ua/groshi/d.html'')
     \<and> deref st' 1 ''category'' = Some (PyStr ''Groshi'')
     \<and> deref st' 1 ''content'' = Some (PyStr ''No budget for roads'')"
proof -
  define l0 where "l0 = hd ukrnet_found"
  define l1 where "l1 = hd tsn_found"
  define items0 where "items0 = [anchor ''//www.ukr.net/news/b.html'' ''Sport budget'',
                                anchor ''//www.ukr.net/news/c.html'' ''City budget plan'']"
  define items1 where "items1 = [anchor ''https://tsn.ua/groshi/a.html'' ''State budget passed'',
                                anchor ''https://tsn.ua/groshi/d.html'' ''No budget for roads'']"
  have lists: "ukrnet_found @ tsn_found = [] @ l0 # tsn_found"
    "ukrnet_found @ tsn_found = ukrnet_found @ l1 # []"
    by (simp_all add: l0_def l1_def ukrnet_found_def tsn_found_def)
  have l: "l0 ''link'' = Some (PyStr ''https://www.ukr.net/news/sport.html'')"
    "l1 ''link'' = Some (PyStr ''https://tsn.ua/groshi'')"
    and n: "l0 ''name'' = Some (PyStr ''Sport'')" "l1 ''name'' = Some (PyStr ''Groshi'')"
    by (simp_all add: l0_def l1_def ukrnet_found_def tsn_found_def)
  have r: "re_compile demo_env ''budget''" by (simp add: demo_env_def)
  have f: "find_all_a (demo_parse ''ukr-listing'') ''budget'' = items0"
    "find_all_a (demo_parse ''tsn-listing'') ''budget'' = items1"
    by (simp_all add: demo_parse_def no_soup_def items0_def items1_def)
  have two: "2 \<le> length (find_all_a (demo_parse ''ukr-listing'') ''budget'')"
    "2 \<le> length (find_all_a (demo_parse ''tsn-listing'') ''budget'')"
    by (simp_all add: f items0_def items1_def)
  have e0: "search_links demo_env ''budget'' [] ([], empty_store) start_state
      = (Inr ([], empty_store), start_state)"
    by simp
  obtain st s where e1: "search_links demo_env ''budget'' ukrnet_found ([], empty_store) start_state
      = (Inr ([0, 0], st), s)"
    by (simp add: ukrnet_found_def empty_store_def new_dict_def setitem_def deref_def
          insert_one_to_collection_def demo_defs fetch_defs Let_def)
  obtain s1 where p0: "parse_page_content demo_env
      (if str_contains tsn_name ''https://www.ukr.net/news/sport.html'' then tsn_name
       else ukrnet_name) ''https://www.ukr.net/news/sport.html'' start_state
      = (Inr (demo_parse ''ukr-listing''), s1)"
    by (simp add: demo_env_def start_state_def fetch_defs Let_def)
  obtain s2 where p1: "parse_page_content demo_env
      (if str_contains tsn_name ''https://tsn.ua/groshi'' then tsn_name else ukrnet_name)
      ''https://tsn.ua/groshi'' s = (Inr (demo_parse ''tsn-listing''), s2)"
    by (simp add: demo_env_def fetch_defs Let_def)
  obtain st' s' where run: "website_search_by_text demo_env ''budget'' (ukrnet_found @ tsn_found)
      start_state = (Inr ([0, 0, 1, 1], st'), s')"
    by (simp add: website_search_by_text_def ukrnet_found_def tsn_found_def new_dict_def
          setitem_def deref_def insert_one_to_collection_def demo_defs fetch_defs Let_def)
  have rec0: "shared_record demo_env l0 items0 st' (length ([] :: dict list))"
    using text_search_shared_record [where earlier = "[]" and link = l0 and later = tsn_found
        and res = "[0, 0, 1, 1]" and st' = st' and s' = s', OF e0 l(1) p0 r two(1)]
      run lists(1) f(1)
    by simp
  have rec1: "shared_record demo_env l1 items1 st' (length ukrnet_found)"
    using text_search_shared_record [where earlier = ukrnet_found and link = l1 and later = "[]"
        and res = "[0, 0, 1, 1]" and st' = st' and s' = s', OF e1 l(2) p1 r two(2)]
      run lists(2) f(2)
    by simp
  have "deref st' 0 ''link'' = Some (PyStr ''//www.ukr.net/news/c.html'')
     \<and> deref st' 0 ''category'' = Some (PyStr ''Sport'')
     \<and> deref st' 0 ''content'' = Some (PyStr ''City budget plan'')"
    using rec0 n(1)
    by (simp add: shared_record_def items0_def anchor_def link_value_def first_string_def
          demo_env_def ascii_strip_def)
  moreover have "deref st' 1 ''link'' = Some (PyStr ''https://tsn.ua/groshi/d.html'')
     \<and> deref st' 1 ''category'' = Some (PyStr ''Groshi'')
     \<and> deref st' 1 ''content'' = Some (PyStr ''No budget for roads'')"
    using rec1 n(2)
    by (simp add: shared_record_def items1_def anchor_def link_value_def first_string_def
          demo_env_def ascii_strip_def ukrnet_found_def)
  ultimately show ?thesis using run by blast
qed

end
